theory Spec2Isabelle
  imports Complex_Main "HOL-Library.AList"
begin

section \<open>Python values, strings and dictionaries\<close>

text \<open>
  The cells of a spreadsheet row are Python scalars. The embedding has \<open>None\<close>, booleans,
  integers and text. Numbers are embedded as unbounded integers; floating-point cells are
  not represented. Text is a list of characters read as ASCII: \<open>lower\<close> and \<open>upper\<close>
  change the 26 letters only, and \<open>strip\<close> removes the ASCII characters that Python's
  \<open>str.isspace\<close> accepts.
\<close>

datatype pyval = PNone | PBool bool | PInt int | PStr string

datatype error = KeyError string

type_synonym row = "(string \<times> pyval) list"

text \<open>Truth value of a scalar, as \<open>if v:\<close> and \<open>not v\<close> read it.\<close>

fun truthy :: "pyval \<Rightarrow> bool" where
  "truthy PNone = False"
| "truthy (PBool b) = b"
| "truthy (PInt i) = (i \<noteq> 0)"
| "truthy (PStr s) = (s \<noteq> [])"

text \<open>\<open>a or b\<close>: the left operand when it is truthy, the right operand otherwise.\<close>

definition py_or :: "pyval \<Rightarrow> pyval \<Rightarrow> pyval" where
  "py_or a b = (if truthy a then a else b)"

text \<open>Equality of scalars as \<open>==\<close> and set membership see it: \<open>True == 1\<close>, \<open>False == 0\<close>.\<close>

fun py_num :: "pyval \<Rightarrow> int option" where
  "py_num (PBool b) = Some (if b then 1 else 0)"
| "py_num (PInt i) = Some i"
| "py_num PNone = None"
| "py_num (PStr s) = None"

definition py_eq :: "pyval \<Rightarrow> pyval \<Rightarrow> bool" where
  "py_eq a b = (case (py_num a, py_num b) of
                  (Some x, Some y) \<Rightarrow> x = y
                | (None, None) \<Rightarrow> a = b
                | _ \<Rightarrow> False)"

definition py_in :: "pyval \<Rightarrow> pyval list \<Rightarrow> bool" where
  "py_in v seen = list_ex (py_eq v) seen"

subsection \<open>Strings\<close>

definition upper_letters :: string where
  "upper_letters = ''ABCDEFGHIJKLMNOPQRSTUVWXYZ''"

definition lower_letters :: string where
  "lower_letters = ''abcdefghijklmnopqrstuvwxyz''"

definition lower_char :: "char \<Rightarrow> char" where
  "lower_char c = (case map_of (zip upper_letters lower_letters) c of Some d \<Rightarrow> d | None \<Rightarrow> c)"

definition upper_char :: "char \<Rightarrow> char" where
  "upper_char c = (case map_of (zip lower_letters upper_letters) c of Some d \<Rightarrow> d | None \<Rightarrow> c)"

definition py_lower :: "string \<Rightarrow> string" where
  "py_lower s = map lower_char s"

definition py_upper :: "string \<Rightarrow> string" where
  "py_upper s = map upper_char s"

definition is_space :: "char \<Rightarrow> bool" where
  "is_space c = (c \<in> set [CHR 0x09, CHR 0x0A, CHR 0x0B, CHR 0x0C, CHR 0x0D,
                           CHR 0x1C, CHR 0x1D, CHR 0x1E, CHR 0x1F, CHR 0x20])"

definition py_strip :: "string \<Rightarrow> string" where
  "py_strip s = rev (dropWhile is_space (rev (dropWhile is_space s)))"

text \<open>\<open>k.lower().strip()\<close>, the normal form under which two headers are the same.\<close>

definition norm_header :: "string \<Rightarrow> string" where
  "norm_header k = py_strip (py_lower k)"

fun str_of_nat :: "nat \<Rightarrow> string" where
  "str_of_nat n = (if n < 10 then [''0123456789'' ! n]
                   else str_of_nat (n div 10) @ [''0123456789'' ! (n mod 10)])"

declare str_of_nat.simps [simp del]

text \<open>\<open>str(v)\<close>.\<close>

fun py_str :: "pyval \<Rightarrow> string" where
  "py_str PNone = ''None''"
| "py_str (PBool b) = (if b then ''True'' else ''False'')"
| "py_str (PInt i) = (if i < 0 then CHR ''-'' # str_of_nat (nat (- i)) else str_of_nat (nat i))"
| "py_str (PStr s) = s"

subsection \<open>Dictionaries\<close>

text \<open>
  A \<open>dict\<close> is the list of its items in insertion order. Assigning to a key that is
  present replaces the value in place, assigning to a new key appends the item.
\<close>

definition dict_get :: "('k \<times> 'v) list \<Rightarrow> 'k \<Rightarrow> 'v option" where
  "dict_get d k = map_of d k"

definition dict_set :: "('k \<times> 'v) list \<Rightarrow> 'k \<Rightarrow> 'v \<Rightarrow> ('k \<times> 'v) list" where
  "dict_set d k v = AList.update k v d"

text \<open>\<open>d[k]\<close> raises \<open>KeyError\<close> on a missing key.\<close>

definition subscript :: "(string \<times> 'v) list \<Rightarrow> string \<Rightarrow> error + 'v" where
  "subscript d k = (case dict_get d k of None \<Rightarrow> Inl (KeyError k) | Some v \<Rightarrow> Inr v)"

text \<open>\<open>r.get(k)\<close> and \<open>r.get(k, default)\<close>.\<close>

definition get :: "row \<Rightarrow> string \<Rightarrow> pyval" where
  "get r k = (case dict_get r k of None \<Rightarrow> PNone | Some v \<Rightarrow> v)"

definition get_or :: "row \<Rightarrow> string \<Rightarrow> pyval \<Rightarrow> pyval" where
  "get_or r k d = (case dict_get r k of None \<Rightarrow> d | Some v \<Rightarrow> v)"

definition bind_res :: "error + 'a \<Rightarrow> ('a \<Rightarrow> error + 'b) \<Rightarrow> error + 'b" where
  "bind_res m f = (case m of Inl e \<Rightarrow> Inl e | Inr x \<Rightarrow> f x)"

section \<open>Schema registry\<close>

definition ANALYSIS_COLUMNS :: "string list" where
  "ANALYSIS_COLUMNS =
    [''ITEM'', ''Listing SKU'', ''Blocked'', ''Blocked Notes'', ''Brand'', ''Product Type'',
     ''Deposco Category'', ''Amazon Title'', ''eBay Title'', ''Amazon Trademark Brand List'',
     ''Amazon Category'', ''Store Category'', ''Store Featured Category'', ''Keywords'',
     ''Amazon Description'', ''Applications'', ''Replaces'', ''Fitment'', ''Store Fitment'',
     ''Division Listing Type'', ''Length'', ''Width'', ''Height'', ''Weight'', ''Images'',
     ''Unit Cost'', ''BIN'', ''Vendor'', ''Source'', ''Partslink Numbers'',
     ''Manufacturer Part Number'', ''Interchange Part Number'', ''Other Part Number'',
     ''OEM Interchange Part Number 1'', ''OEM Interchange Part Number 2'',
     ''OEM Interchange Part Number 3'', ''OEM Interchange Part Number 4'',
     ''OEM Interchange Part Number 5'', ''OEM Interchange Part Number 6'',
     ''OEM Interchange Part Number 7'', ''OEM Interchange Part Number 8'',
     ''OEM Interchange Part Number 9'']"

definition ITEM_SHEET_DEFAULTS :: row where
  "ITEM_SHEET_DEFAULTS =
    [(''Drop Ship'', PInt 1), (''Reorder Lead Time'', PInt 0), (''Minimum Order Quantity'', PInt 0),
     (''Reorder Point'', PInt 0), (''Reorder Quantity'', PInt 0),
     (''Inventory Tracking Enabled'', PBool True), (''Shippable Flag'', PBool True),
     (''FL Reorder Point'', PInt 0), (''FL Reorder Quantity'', PInt 0),
     (''Default Receive Quantity'', PInt 1)]"

section \<open>Row reconciler: \<open>build_analysis_rows\<close>\<close>

text \<open>
  \<open>{k.lower().strip(): k for k in d.keys()}\<close>: a later key replaces an earlier one with
  the same normal form.
\<close>

definition lower_map :: "string list \<Rightarrow> (string \<times> string) list" where
  "lower_map ks = fold (\<lambda>k m. dict_set m (norm_header k) k) ks []"

text \<open>
  \<open>d.get(k) is not None and str(d.get(k, "")).strip()\<close>: the test for a usable value.
\<close>

definition filled :: "row \<Rightarrow> string \<Rightarrow> bool" where
  "filled d k = (get d k \<noteq> PNone \<and> py_strip (py_str (get_or d k (PStr []))) \<noteq> [])"

text \<open>The identity under which a supplemental row is stored.\<close>

definition supp_identity :: "row \<Rightarrow> pyval" where
  "supp_identity r =
     (let key = py_or (py_or (py_or (get r ''ITEM'') (get r ''Item'')) (get r ''SKU''))
                      (get r ''Listing SKU'')
      in if \<not> truthy key
         then (case map snd r of [] \<Rightarrow> PNone | v # _ \<Rightarrow> v)
         else key)"

fun build_supp_map :: "row list \<Rightarrow> (string \<times> row) list \<Rightarrow> (string \<times> row) list" where
  "build_supp_map [] supp_map = supp_map"
| "build_supp_map (r # rs) supp_map =
     (let key = supp_identity r
      in build_supp_map rs
           (if truthy key then dict_set supp_map (py_upper (py_strip (py_str key))) r
            else supp_map))"

text \<open>\<open>str(row.get("ITEM") or row.get("Item") or "").strip().upper()\<close>.\<close>

definition item_key :: "row \<Rightarrow> string" where
  "item_key r =
     py_upper (py_strip (py_str (py_or (py_or (get r ''ITEM'') (get r ''Item'')) (PStr []))))"

text \<open>The three sources of a column's value, in the order the loop body tries them.\<close>

definition from_source :: "row \<Rightarrow> (string \<times> string) list \<Rightarrow> string \<Rightarrow> error + pyval" where
  "from_source r row_lower col =
     (case dict_get row_lower (norm_header col) of
        None \<Rightarrow> Inr PNone
      | Some src_key \<Rightarrow>
          if src_key \<noteq> [] \<and> filled r src_key then subscript r src_key else Inr PNone)"

definition from_supp :: "row \<Rightarrow> (string \<times> row) list \<Rightarrow> string \<Rightarrow> pyval \<Rightarrow> error + pyval" where
  "from_supp r supp_map col val =
     (if val = PNone then
        (case dict_get supp_map (item_key r) of
           None \<Rightarrow> Inr val
         | Some supp \<Rightarrow>
             if supp \<noteq> [] then
               (case dict_get (lower_map (map fst supp)) (norm_header col) of
                  None \<Rightarrow> Inr val
                | Some supp_key \<Rightarrow>
                    if supp_key \<noteq> [] \<and> filled supp supp_key then subscript supp supp_key
                    else Inr val)
             else Inr val)
      else Inr val)"

definition from_defaults :: "row \<Rightarrow> string \<Rightarrow> pyval \<Rightarrow> error + pyval" where
  "from_defaults global_defaults col val =
     (if val = PNone \<and> dict_get global_defaults col \<noteq> None then
        bind_res (subscript global_defaults col) (\<lambda>d.
          if py_strip (py_str d) \<noteq> [] then subscript global_defaults col else Inr val)
      else Inr val)"

definition column_value ::
  "row \<Rightarrow> (string \<times> string) list \<Rightarrow> (string \<times> row) list \<Rightarrow> row \<Rightarrow> string \<Rightarrow> error + pyval" where
  "column_value r row_lower supp_map global_defaults col =
     bind_res (from_source r row_lower col) (\<lambda>v1.
     bind_res (from_supp r supp_map col v1) (\<lambda>v2.
     bind_res (from_defaults global_defaults col v2) (\<lambda>v3.
     Inr (if v3 \<noteq> PNone then v3 else PStr []))))"

fun fill_columns ::
  "row \<Rightarrow> (string \<times> string) list \<Rightarrow> (string \<times> row) list \<Rightarrow> row \<Rightarrow> string list \<Rightarrow> row
     \<Rightarrow> error + row" where
  "fill_columns r row_lower supp_map gd [] out = Inr out"
| "fill_columns r row_lower supp_map gd (col # cols) out =
     bind_res (column_value r row_lower supp_map gd col) (\<lambda>v.
       fill_columns r row_lower supp_map gd cols (dict_set out col v))"

text \<open>One pass of the outer loop body: the canonical row of one source row.\<close>

definition build_row :: "row \<Rightarrow> (string \<times> row) list \<Rightarrow> row \<Rightarrow> error + row" where
  "build_row r supp_map gd =
     bind_res (fill_columns r (lower_map (map fst r)) supp_map gd ANALYSIS_COLUMNS []) (\<lambda>out.
       Inr (if \<not> truthy (get out ''Blocked'') then dict_set out ''Blocked'' (PBool False)
            else out))"

fun build_rows :: "row list \<Rightarrow> (string \<times> row) list \<Rightarrow> row \<Rightarrow> row list \<Rightarrow> error + row list" where
  "build_rows [] supp_map gd rows = Inr rows"
| "build_rows (r # rs) supp_map gd rows =
     bind_res (build_row r supp_map gd) (\<lambda>out. build_rows rs supp_map gd (rows @ [out]))"

definition make_supp_map :: "row list option \<Rightarrow> (string \<times> row) list" where
  "make_supp_map supp_data =
     (case supp_data of
        None \<Rightarrow> []
      | Some sd \<Rightarrow> if sd \<noteq> [] then build_supp_map sd [] else [])"

definition build_analysis_rows :: "row list \<Rightarrow> row \<Rightarrow> row list option \<Rightarrow> error + row list" where
  "build_analysis_rows source_data global_defaults supp_data =
     build_rows source_data (make_supp_map supp_data) global_defaults []"

text \<open>
  Reading the result: the value of column \<open>c\<close> in the \<open>i\<close>-th canonical row, when the
  call returns and the row and the key exist.
\<close>

definition reconciled :: "row list \<Rightarrow> row \<Rightarrow> row list option \<Rightarrow> nat \<Rightarrow> string \<Rightarrow> pyval option" where
  "reconciled source_data global_defaults supp_data i c =
     (case build_analysis_rows source_data global_defaults supp_data of
        Inl e \<Rightarrow> None
      | Inr rows \<Rightarrow> if i < length rows then dict_get (rows ! i) c else None)"


text \<open>
  The value the loop body stores in \<open>out[col]\<close> for a source row, before the rule for
  \<open>Blocked\<close> is applied.
\<close>

definition resolved_value :: "row \<Rightarrow> row \<Rightarrow> row list option \<Rightarrow> string \<Rightarrow> error + pyval" where
  "resolved_value r global_defaults supp_data col =
     column_value r (lower_map (map fst r)) (make_supp_map supp_data) global_defaults col"

text \<open>The canonical rows of a call, the empty sequence standing for a call that raised.\<close>

definition canonical_rows :: "row list \<Rightarrow> row \<Rightarrow> row list option \<Rightarrow> row list" where
  "canonical_rows source_data global_defaults supp_data =
     (case build_analysis_rows source_data global_defaults supp_data of
        Inl e \<Rightarrow> []
      | Inr rows \<Rightarrow> rows)"


section \<open>Field analyzer: \<open>detect_fields\<close>\<close>











section \<open>Derived sheet builders\<close>

text \<open>
  The vendor, item and pack builders run the same loop over the canonical rows, with a
  set of identities already seen and a list of output records; they differ in the record
  appended. The loop is written once, with the record as an argument.
\<close>

fun dedup_loop :: "(pyval \<Rightarrow> row \<Rightarrow> row) \<Rightarrow> row list \<Rightarrow> pyval list \<Rightarrow> row list \<Rightarrow> row list" where
  "dedup_loop mk [] seen out = out"
| "dedup_loop mk (r # rs) seen out =
     (let item = get r ''ITEM''
      in if truthy item \<and> \<not> py_in item seen
         then dedup_loop mk rs (item # seen) (out @ [mk item r])
         else dedup_loop mk rs seen out)"

definition vendor_record :: "pyval \<Rightarrow> row \<Rightarrow> row" where
  "vendor_record item r =
     [(''Fulfillment Type'', PStr []), (''Item'', item),
      (''Trading Partner'', get_or r ''Vendor'' (PStr [])), (''SKU/UPC'', item),
      (''Unit Cost'', get_or r ''Unit Cost'' (PStr [])), (''Is Preferred Vendor'', PBool True),
      (''Quantity'', PStr [])]"

definition build_item_vendor_sheet :: "row list \<Rightarrow> row list" where
  "build_item_vendor_sheet rows = dedup_loop vendor_record rows [] []"

definition item_record :: "pyval \<Rightarrow> pyval \<Rightarrow> pyval \<Rightarrow> row \<Rightarrow> row" where
  "item_record harmonized_code origin_country item r =
     [(''ID'', PStr []), (''Number'', item), (''Name'', item),
      (''Long Description'', get_or r ''eBay Title'' (PStr [])),
      (''Unit Cost'', get_or r ''Unit Cost'' (PStr []))]
     @ ITEM_SHEET_DEFAULTS @
     [(''Trading Partner'', get_or r ''Vendor'' (PStr [])),
      (''Retail Price'', get_or r ''BIN'' (PStr [])),
      (''Product Category'',
         py_or (get r ''Product Type'') (get_or r ''Deposco Category'' (PStr []))),
      (''Harmonized Code'', harmonized_code), (''Short Description'', PStr []),
      (''Origin Country'', origin_country)]"

definition build_item_sheet :: "row list \<Rightarrow> pyval \<Rightarrow> pyval \<Rightarrow> row list" where
  "build_item_sheet rows harmonized_code origin_country =
     dedup_loop (item_record harmonized_code origin_country) rows [] []"

definition pack_record :: "pyval \<Rightarrow> row \<Rightarrow> row" where
  "pack_record item r =
     [(''Pack Key'', PStr (py_str item @ ''--Each--1'')), (''Item'', item),
      (''Pack Type'', PStr ''Each''), (''Quantity'', PInt 1),
      (''Length'', get_or r ''Length'' (PStr [])), (''Length Uom'', PStr ''Inch''),
      (''Width'', get_or r ''Width'' (PStr [])), (''Width Uom'', PStr ''Inch''),
      (''Height'', get_or r ''Height'' (PStr [])), (''Height Uom'', PStr ''Inch''),
      (''Volume'', PStr []), (''Volume Uom'', PStr []),
      (''Weight'', get_or r ''Weight'' (PStr [])), (''Weight Uom'', PStr ''Pound'')]"

definition build_pack_sheet :: "row list \<Rightarrow> row list" where
  "build_pack_sheet rows = dedup_loop pack_record rows [] []"

definition upc_record :: "row \<Rightarrow> row" where
  "upc_record r =
     [(''ITEM'', get_or r ''ITEM'' (PStr [])), (''UPC'', get_or r ''Listing SKU'' (PStr [])),
      (''Source'', PStr ''Listings'')]"

definition build_item_upc_sheet :: "row list \<Rightarrow> row list" where
  "build_item_upc_sheet rows = map upc_record rows"

text \<open>
  The identities of a row sequence in first-occurrence order, in the words of the
  deduplication invariant: each identity that passes \<open>keep\<close> once, at the place of its
  first occurrence; two identities are the same when \<open>==\<close> says so.
\<close>

fun first_occurrences :: "pyval list \<Rightarrow> pyval list" where
  "first_occurrences [] = []"
| "first_occurrences (x # xs) = x # filter (\<lambda>y. \<not> py_eq x y) (first_occurrences xs)"

definition item_identities :: "row list \<Rightarrow> pyval list" where
  "item_identities rows = map (\<lambda>r. get r ''ITEM'') rows"

text \<open>No two entries of a list of identities are equal under \<open>==\<close>.\<close>

fun py_distinct :: "pyval list \<Rightarrow> bool" where
  "py_distinct [] = True"
| "py_distinct (x # xs) = (\<not> py_in x xs \<and> py_distinct xs)"

text \<open>
  A value is non-empty when it is not \<open>None\<close> and its text, trimmed, is not the empty
  string.
\<close>

definition non_empty :: "pyval \<Rightarrow> bool" where
  "non_empty v = (v \<noteq> PNone \<and> py_strip (py_str v) \<noteq> [])"

section \<open>Workbook emitter: \<open>export_to_bytes\<close>\<close>






section \<open>Sample inputs\<close>


text \<open>The canonical row of the source row \<open>{"ITEM": 0}\<close>.\<close>

definition zero_item_row :: row where
  "zero_item_row =
     map (\<lambda>c. (c, if c = ''ITEM'' then PInt 0 else if c = ''Blocked'' then PBool False else PStr []))
       ANALYSIS_COLUMNS"

section \<open>Properties of the row reconciler\<close>

subsection \<open>Dictionary operations\<close>

lemma dict_get_set: "dict_get (dict_set d k v) k' = (if k' = k then Some v else dict_get d k')"
  by (simp add: dict_get_def dict_set_def update_conv')

lemma keys_dict_set:
  "map fst (dict_set d k v) = (if k \<in> set (map fst d) then map fst d else map fst d @ [k])"
  by (simp add: dict_set_def update_keys)

lemma filled_subscript: "filled d k \<Longrightarrow> subscript d k = Inr (get d k)"
  by (auto simp: filled_def subscript_def get_def split: option.splits)

lemma from_source_cases:
  "from_source r rl col = Inr PNone \<or>
   (\<exists>k. dict_get rl (norm_header col) = Some k \<and> k \<noteq> [] \<and> filled r k \<and> from_source r rl col = Inr (get r k))"
  by (auto simp: from_source_def filled_subscript split: option.splits)


lemma from_supp_total: "\<exists>v. from_supp r sm col val = Inr v"
  by (auto simp: from_supp_def filled_subscript split: option.splits)



lemma from_defaults_total: "\<exists>v. from_defaults gd col val = Inr v"
  by (auto simp: from_defaults_def subscript_def bind_res_def split: option.splits)


lemma column_value_total: "\<exists>v. column_value r rl sm gd col = Inr v \<and> v \<noteq> PNone"
proof -
  obtain v1 where v1: "from_source r rl col = Inr v1"
    using from_source_cases [of r rl col] by auto
  obtain v2 where v2: "from_supp r sm col v1 = Inr v2"
    using from_supp_total by blast
  obtain v3 where v3: "from_defaults gd col v2 = Inr v3"
    using from_defaults_total by blast
  show ?thesis
    by (simp add: column_value_def bind_res_def v1 v2 v3)
qed


lemma fill_columns_total:
  "\<exists>out'. fill_columns r rl sm gd cols out = Inr out'"
proof (induction cols arbitrary: out)
  case Nil
  show ?case by simp
next
  case (Cons col cols)
  obtain v where "column_value r rl sm gd col = Inr v"
    using column_value_total by blast
  then show ?case using Cons.IH by (simp add: bind_res_def)
qed

lemma fill_columns_keys:
  "fill_columns r rl sm gd cols out = Inr out' \<Longrightarrow> distinct cols \<Longrightarrow>
   set cols \<inter> set (map fst out) = {} \<Longrightarrow> map fst out' = map fst out @ cols"
proof (induction cols arbitrary: out)
  case Nil
  then show ?case by simp
next
  case (Cons col cols)
  obtain v where v: "column_value r rl sm gd col = Inr v"
    using column_value_total by blast
  let ?o = "dict_set out col v"
  have keys: "map fst ?o = map fst out @ [col]"
    using Cons.prems(3) by (auto simp: keys_dict_set)
  have "fill_columns r rl sm gd cols ?o = Inr out'"
    using Cons.prems(1) v by (simp add: bind_res_def)
  moreover have "set cols \<inter> set (map fst ?o) = {}"
    using Cons.prems(2,3) by (auto simp: keys)
  ultimately have "map fst out' = map fst ?o @ cols"
    using Cons.IH Cons.prems(2) by simp
  then show ?case by (simp add: keys)
qed

lemma fill_columns_other:
  "fill_columns r rl sm gd cols out = Inr out' \<Longrightarrow> c \<notin> set cols \<Longrightarrow>
   dict_get out' c = dict_get out c"
proof (induction cols arbitrary: out)
  case Nil
  then show ?case by simp
next
  case (Cons col cols)
  obtain v where v: "column_value r rl sm gd col = Inr v"
    using column_value_total by blast
  have "fill_columns r rl sm gd cols (dict_set out col v) = Inr out'"
    using Cons.prems(1) v by (simp add: bind_res_def)
  then have "dict_get out' c = dict_get (dict_set out col v) c"
    using Cons.IH Cons.prems(2) by simp
  then show ?case using Cons.prems(2) by (simp add: dict_get_set)
qed

lemma fill_columns_value:
  "fill_columns r rl sm gd cols out = Inr out' \<Longrightarrow> distinct cols \<Longrightarrow> c \<in> set cols \<Longrightarrow>
   column_value r rl sm gd c = Inr v \<Longrightarrow> dict_get out' c = Some v"
proof (induction cols arbitrary: out)
  case Nil
  then show ?case by simp
next
  case (Cons col cols)
  obtain w where w: "column_value r rl sm gd col = Inr w"
    using column_value_total by blast
  have rest: "fill_columns r rl sm gd cols (dict_set out col w) = Inr out'"
    using Cons.prems(1) w by (simp add: bind_res_def)
  show ?case
  proof (cases "c = col")
    case True
    then have "c \<notin> set cols" using Cons.prems(2) by simp
    then have "dict_get out' c = dict_get (dict_set out col w) c"
      using fill_columns_other [OF rest] by simp
    then show ?thesis using True w Cons.prems(4) by (simp add: dict_get_set)
  next
    case False
    then show ?thesis using Cons.IH [OF rest] Cons.prems by simp
  qed
qed

lemma distinct_ANALYSIS_COLUMNS: "distinct ANALYSIS_COLUMNS"
  by (simp add: ANALYSIS_COLUMNS_def)

lemma length_ANALYSIS_COLUMNS: "length ANALYSIS_COLUMNS = 42"
  by (simp add: ANALYSIS_COLUMNS_def)

lemma Blocked_in_ANALYSIS_COLUMNS: "''Blocked'' \<in> set ANALYSIS_COLUMNS"
  by (simp add: ANALYSIS_COLUMNS_def)

lemma build_row_total: "\<exists>out. build_row r sm gd = Inr out"
proof -
  obtain out where "fill_columns r (lower_map (map fst r)) sm gd ANALYSIS_COLUMNS [] = Inr out"
    using fill_columns_total by blast
  then show ?thesis by (simp add: build_row_def bind_res_def)
qed

lemma build_row_keys:
  assumes "build_row r sm gd = Inr out"
  shows "map fst out = ANALYSIS_COLUMNS"
proof -
  obtain o1 where o1: "fill_columns r (lower_map (map fst r)) sm gd ANALYSIS_COLUMNS [] = Inr o1"
    using fill_columns_total by blast
  have k1: "map fst o1 = ANALYSIS_COLUMNS"
    using fill_columns_keys [OF o1 distinct_ANALYSIS_COLUMNS] by simp
  have "out = (if \<not> truthy (get o1 ''Blocked'') then dict_set o1 ''Blocked'' (PBool False) else o1)"
    using assms o1 by (simp add: build_row_def bind_res_def)
  then show ?thesis
    using k1 Blocked_in_ANALYSIS_COLUMNS by (simp add: keys_dict_set)
qed

lemma build_row_value:
  assumes "build_row r sm gd = Inr out" "c \<in> set ANALYSIS_COLUMNS"
    and "column_value r (lower_map (map fst r)) sm gd c = Inr v"
  shows "dict_get out c = Some (if c = ''Blocked'' \<and> \<not> truthy v then PBool False else v)"
proof -
  obtain o1 where o1: "fill_columns r (lower_map (map fst r)) sm gd ANALYSIS_COLUMNS [] = Inr o1"
    using fill_columns_total by blast
  have v1: "dict_get o1 c = Some v"
    using fill_columns_value [OF o1 distinct_ANALYSIS_COLUMNS assms(2,3)] .
  have out: "out = (if \<not> truthy (get o1 ''Blocked'') then dict_set o1 ''Blocked'' (PBool False) else o1)"
    using assms(1) o1 by (simp add: build_row_def bind_res_def)
  show ?thesis
  proof (cases "c = ''Blocked''")
    case True
    then have "get o1 ''Blocked'' = v" using v1 by (simp add: get_def)
    then show ?thesis using out True v1 by (simp add: dict_get_set)
  next
    case False
    then show ?thesis using out v1 by (simp add: dict_get_set)
  qed
qed

lemma build_rows_total: "\<exists>rows. build_rows rs sm gd acc = Inr rows"
proof (induction rs arbitrary: acc)
  case Nil
  show ?case by simp
next
  case (Cons r rs)
  obtain out where "build_row r sm gd = Inr out" using build_row_total by blast
  then show ?case using Cons.IH by (simp add: bind_res_def)
qed

lemma build_rows_shape:
  "build_rows rs sm gd acc = Inr rows \<Longrightarrow>
   length rows = length acc + length rs \<and> take (length acc) rows = acc \<and>
   (\<forall>i<length rs. build_row (rs ! i) sm gd = Inr (rows ! (length acc + i)))"
proof (induction rs arbitrary: acc)
  case Nil
  then show ?case by simp
next
  case (Cons r rs)
  obtain out where out: "build_row r sm gd = Inr out" using build_row_total by blast
  have rest: "build_rows rs sm gd (acc @ [out]) = Inr rows"
    using Cons.prems out by (simp add: bind_res_def)
  note ih = Cons.IH [OF rest]
  have len: "length rows = length acc + length (r # rs)" using ih by simp
  have tk: "take (Suc (length acc)) rows = acc @ [out]" using ih by simp
  have tk': "take (length acc) rows = acc"
  proof -
    have "take (length acc) (take (Suc (length acc)) rows) = take (length acc) (acc @ [out])"
      by (simp only: tk)
    then show ?thesis by simp
  qed
  have at: "rows ! length acc = out"
  proof -
    have "rows ! length acc = take (Suc (length acc)) rows ! length acc" by simp
    also have "\<dots> = out" by (simp only: tk) simp
    finally show ?thesis .
  qed
  have "\<forall>i<length (r # rs). build_row ((r # rs) ! i) sm gd = Inr (rows ! (length acc + i))"
  proof (intro allI impI)
    fix i assume i: "i < length (r # rs)"
    show "build_row ((r # rs) ! i) sm gd = Inr (rows ! (length acc + i))"
    proof (cases i)
      case 0
      then show ?thesis using out at by simp
    next
      case (Suc j)
      then have "j < length rs" using i by simp
      then have "build_row (rs ! j) sm gd = Inr (rows ! (length (acc @ [out]) + j))"
        using ih by blast
      then show ?thesis using Suc by simp
    qed
  qed
  then show ?case using len tk' by blast
qed


subsection \<open>The whole call\<close>

lemma build_analysis_rows_at:
  assumes "build_analysis_rows R gd supp = Inr rows" "i < length R"
  shows "build_row (R ! i) (make_supp_map supp) gd = Inr (rows ! i)"
  using build_rows_shape [of R "make_supp_map supp" gd "[]" rows] assms
  by (simp add: build_analysis_rows_def)

lemma build_analysis_rows_length:
  assumes "build_analysis_rows R gd supp = Inr rows"
  shows "length rows = length R"
  using build_rows_shape [of R "make_supp_map supp" gd "[]" rows] assms
  by (simp add: build_analysis_rows_def)

lemma build_analysis_rows_total: "\<exists>rows. build_analysis_rows R gd supp = Inr rows"
  by (simp add: build_analysis_rows_def build_rows_total)

lemma build_analysis_rows_single:
  "build_row r (make_supp_map supp) gd = Inr out \<Longrightarrow> build_analysis_rows [r] gd supp = Inr [out]"
  by (simp add: build_analysis_rows_def bind_res_def)

subsection \<open>Header lookup\<close>







lemma reconciled_value:
  assumes "i < length R" "c \<in> set ANALYSIS_COLUMNS"
    and "column_value (R ! i) (lower_map (map fst (R ! i))) (make_supp_map supp) gd c = Inr v"
  shows "reconciled R gd supp i c = Some (if c = ''Blocked'' \<and> \<not> truthy v then PBool False else v)"
proof -
  obtain rows where rows: "build_analysis_rows R gd supp = Inr rows"
    using build_analysis_rows_total by blast
  have len: "length rows = length R" using build_analysis_rows_length [OF rows] .
  have "build_row (R ! i) (make_supp_map supp) gd = Inr (rows ! i)"
    using build_analysis_rows_at [OF rows assms(1)] .
  then have "dict_get (rows ! i) c = Some (if c = ''Blocked'' \<and> \<not> truthy v then PBool False else v)"
    using build_row_value assms(2,3) by blast
  then show ?thesis using rows len assms(1) by (simp add: reconciled_def)
qed

subsection \<open>Rows without a lookup key\<close>







section \<open>Properties of the field analyzer\<close>













section \<open>Properties of the sheet builders and the emitter\<close>

lemma py_eq_sym: "py_eq a b = py_eq b a"
  by (cases a; cases b) (auto simp: py_eq_def)

lemma py_eq_refl: "py_eq a a"
  by (cases a) (auto simp: py_eq_def)

lemma py_eq_trans: "py_eq a b \<Longrightarrow> py_eq b c \<Longrightarrow> py_eq a c"
  by (cases a; cases b; cases c) (auto simp: py_eq_def split: if_splits)

lemma py_in_Nil: "\<not> py_in v []"
  by (simp add: py_in_def)

lemma py_in_Cons: "py_in v (x # xs) = (py_eq v x \<or> py_in v xs)"
  by (simp add: py_in_def)

lemma py_in_iff: "py_in v xs = (\<exists>x\<in>set xs. py_eq v x)"
  by (simp add: py_in_def list_ex_iff)

lemma py_in_cong: "py_eq a b \<Longrightarrow> py_in a xs \<Longrightarrow> py_in b xs"
  using py_eq_sym py_eq_trans by (auto simp: py_in_iff) blast

lemma filter_seen_Cons:
  "filter (\<lambda>y. \<not> py_in y (x # seen)) xs
     = filter (\<lambda>y. \<not> py_in y seen) (filter (\<lambda>y. \<not> py_eq x y) xs)"
  by (induction xs) (auto simp: py_in_Cons py_eq_sym)

lemma filter_seen_absorb:
  assumes "py_in x seen"
  shows "filter (\<lambda>y. \<not> py_in y seen) (filter (\<lambda>y. \<not> py_eq x y) xs)
           = filter (\<lambda>y. \<not> py_in y seen) xs"
proof -
  have "\<not> py_eq x y" if "\<not> py_in y seen" for y
    using that assms py_in_cong by blast
  then show ?thesis by (induction xs) auto
qed

lemma dedup_loop_identities:
  assumes mk: "\<And>item r. get (mk item r) idk = item"
  shows "map (\<lambda>s. get s idk) (dedup_loop mk rows seen out)
           = map (\<lambda>s. get s idk) out
             @ filter (\<lambda>y. \<not> py_in y seen) (first_occurrences (filter truthy (item_identities rows)))"
proof (induction rows arbitrary: seen out)
  case Nil
  show ?case by (simp add: item_identities_def)
next
  case (Cons r rs)
  let ?item = "get r ''ITEM''"
  let ?rest = "first_occurrences (filter truthy (item_identities rs))"
  show ?case
  proof (cases "truthy ?item")
    case False
    then show ?thesis using Cons.IH by (simp add: item_identities_def)
  next
    case True
    show ?thesis
    proof (cases "py_in ?item seen")
      case True
      have "map (\<lambda>s. get s idk) (dedup_loop mk (r # rs) seen out)
              = map (\<lambda>s. get s idk) out @ filter (\<lambda>y. \<not> py_in y seen) ?rest"
        using True Cons.IH by (simp add: Let_def)
      moreover have "filter (\<lambda>y. \<not> py_in y seen)
                        (first_occurrences (filter truthy (item_identities (r # rs))))
              = filter (\<lambda>y. \<not> py_in y seen) ?rest"
      proof -
        have "first_occurrences (filter truthy (item_identities (r # rs)))
                = ?item # filter (\<lambda>y. \<not> py_eq ?item y) ?rest"
          using \<open>truthy ?item\<close> by (simp add: item_identities_def)
        then have "filter (\<lambda>y. \<not> py_in y seen)
                     (first_occurrences (filter truthy (item_identities (r # rs))))
                = filter (\<lambda>y. \<not> py_in y seen) (filter (\<lambda>y. \<not> py_eq ?item y) ?rest)"
          using True by (simp del: filter_filter)
        also have "\<dots> = filter (\<lambda>y. \<not> py_in y seen) ?rest"
          using True by (rule filter_seen_absorb)
        finally show ?thesis .
      qed
      ultimately show ?thesis by simp
    next
      case False
      have "map (\<lambda>s. get s idk) (dedup_loop mk (r # rs) seen out)
              = map (\<lambda>s. get s idk) (out @ [mk ?item r])
                @ filter (\<lambda>y. \<not> py_in y (?item # seen)) ?rest"
        using False \<open>truthy ?item\<close> Cons.IH by (simp add: Let_def)
      moreover have "filter (\<lambda>y. \<not> py_in y seen)
                        (first_occurrences (filter truthy (item_identities (r # rs))))
              = ?item # filter (\<lambda>y. \<not> py_in y (?item # seen)) ?rest"
        using False \<open>truthy ?item\<close> by (simp add: item_identities_def filter_seen_Cons)
      ultimately show ?thesis by (simp add: mk)
    qed
  qed
qed

lemma dedup_loop_start:
  assumes "\<And>item r. get (mk item r) idk = item"
  shows "map (\<lambda>s. get s idk) (dedup_loop mk rows [] [])
           = first_occurrences (filter truthy (item_identities rows))"
  using dedup_loop_identities [of mk idk rows "[]" "[]", OF assms] by (simp add: py_in_Nil)

lemma vendor_record_id: "get (vendor_record item r) ''Item'' = item"
  by (simp add: vendor_record_def get_def dict_get_def)

lemma item_record_id: "get (item_record hc oc item r) ''Number'' = item"
  by (simp add: item_record_def get_def dict_get_def)

lemma pack_record_id: "get (pack_record item r) ''Item'' = item"
  by (simp add: pack_record_def get_def dict_get_def)

lemma py_in_filter: "py_in v (filter P xs) \<Longrightarrow> py_in v xs"
  by (auto simp: py_in_iff)

lemma py_distinct_filter: "py_distinct xs \<Longrightarrow> py_distinct (filter P xs)"
  by (induction xs) (auto dest: py_in_filter)

lemma py_distinct_first_occurrences: "py_distinct (first_occurrences xs)"
proof (induction xs)
  case Nil
  show ?case by simp
next
  case (Cons x xs)
  have "\<not> py_in x (filter (\<lambda>y. \<not> py_eq x y) (first_occurrences xs))"
    by (auto simp: py_in_iff)
  then show ?case using Cons.IH by (simp add: py_distinct_filter)
qed

lemma set_first_occurrences: "set (first_occurrences xs) \<subseteq> set xs"
  by (induction xs) auto

lemma first_occurrences_covers: "x \<in> set xs \<Longrightarrow> py_in x (first_occurrences xs)"
proof (induction xs)
  case Nil
  then show ?case by simp
next
  case (Cons a xs)
  show ?case
  proof (cases "py_eq x a")
    case True
    then show ?thesis by (simp add: py_in_Cons)
  next
    case False
    then have "x \<in> set xs" using Cons.prems by (auto simp: py_eq_refl)
    then obtain y where y: "y \<in> set (first_occurrences xs)" "py_eq x y"
      using Cons.IH by (auto simp: py_in_iff)
    have "\<not> py_eq a y"
    proof
      assume "py_eq a y"
      then have "py_eq x a" using y(2) py_eq_sym py_eq_trans by blast
      then show False using False by simp
    qed
    then show ?thesis using y by (auto simp: py_in_iff)
  qed
qed


section \<open>Claims about the row reconciler\<close>

text \<open>
  Claim C1. For every sequence of source rows and every global-defaults mapping,
  reconciliation with no supplemental table returns, and returns exactly one canonical row
  per source row, in the order of the inputs: the \<open>i\<close>-th output row is the canonical row
  of the \<open>i\<close>-th source row reconciled alone. The keys of every output row are the target
  columns, in schema order, and the schema has 42 distinct columns.
\<close>

theorem reconcile_one_row_per_source_row:
  "\<exists>rows. build_analysis_rows R gd None = Inr rows \<and> length rows = length R
     \<and> (\<forall>i<length R. build_analysis_rows [R ! i] gd None = Inr [rows ! i])
     \<and> (\<forall>out\<in>set rows. map fst out = ANALYSIS_COLUMNS)
     \<and> distinct ANALYSIS_COLUMNS \<and> length ANALYSIS_COLUMNS = 42"
proof -
  obtain rows where rows: "build_analysis_rows R gd None = Inr rows"
    using build_analysis_rows_total by blast
  have len: "length rows = length R"
    using build_analysis_rows_length [OF rows] .
  have each: "\<forall>i<length R. build_analysis_rows [R ! i] gd None = Inr [rows ! i]"
    using build_analysis_rows_at [OF rows] build_analysis_rows_single by blast
  have keys: "\<forall>out\<in>set rows. map fst out = ANALYSIS_COLUMNS"
  proof
    fix out assume "out \<in> set rows"
    then obtain i where i: "i < length rows" "rows ! i = out"
      by (auto simp: in_set_conv_nth)
    then have "build_row (R ! i) (make_supp_map None) gd = Inr out"
      using build_analysis_rows_at [OF rows] len by auto
    then show "map fst out = ANALYSIS_COLUMNS" by (rule build_row_keys)
  qed
  show ?thesis
    using rows len each keys distinct_ANALYSIS_COLUMNS length_ANALYSIS_COLUMNS by blast
qed

theorem reconcile_one_row_per_source_row_witness:
  "\<exists>rows. build_analysis_rows [[(''Item'', PStr ''A1'')], []] [] None = Inr rows
     \<and> length rows = 2
     \<and> build_analysis_rows [[]] [] None = Inr [rows ! 1]
     \<and> map fst (rows ! 1) = ANALYSIS_COLUMNS"
proof -
  let ?R = "[[(''Item'', PStr ''A1'')], []] :: row list"
  obtain rows where rows: "build_analysis_rows ?R [] None = Inr rows"
    and len: "length rows = length ?R"
    and each: "\<forall>i<length ?R. build_analysis_rows [?R ! i] [] None = Inr [rows ! i]"
    and keys: "\<forall>out\<in>set rows. map fst out = ANALYSIS_COLUMNS"
    using reconcile_one_row_per_source_row [of ?R "[]"] by blast
  have "rows ! 1 \<in> set rows" using len by simp
  then have "map fst (rows ! 1) = ANALYSIS_COLUMNS" using keys by blast
  moreover have "build_analysis_rows [[]] [] None = Inr [rows ! 1]"
    using each [rule_format, of 1] by simp
  ultimately show ?thesis using rows len by simp
qed




text \<open>
  Claim C4, amended. In every canonical row the \<open>Blocked\<close> column is \<open>False\<close> whenever the
  value resolved for it is falsy (the empty string of an unset column, \<open>0\<close>, \<open>False\<close>), so
  it is never the empty string; a truthy resolved value is kept as it is, boolean or not.

  The claim as stated, that \<open>Blocked\<close> is always a boolean, fails on the source row
  \<open>{"Blocked": "yes"}\<close>, whose canonical \<open>Blocked\<close> is the text \<open>"yes"\<close>.
\<close>

theorem blocked_coercion:
  assumes "i < length R"
  shows "\<exists>v. resolved_value (R ! i) gd supp ''Blocked'' = Inr v
            \<and> reconciled R gd supp i ''Blocked'' = Some (if truthy v then v else PBool False)
            \<and> reconciled R gd supp i ''Blocked'' \<noteq> Some (PStr [])"
proof -
  obtain v where v: "resolved_value (R ! i) gd supp ''Blocked'' = Inr v"
    using column_value_total unfolding resolved_value_def by blast
  have "reconciled R gd supp i ''Blocked'' = Some (if truthy v then v else PBool False)"
    using reconciled_value [OF assms Blocked_in_ANALYSIS_COLUMNS] v
    by (auto simp: resolved_value_def)
  moreover have "(if truthy v then v else PBool False) \<noteq> PStr []"
    by (cases v) auto
  ultimately show ?thesis using v by auto
qed

theorem blocked_coercion_witness:
  "resolved_value [(''blocked'', PInt 0)] [] None ''Blocked'' = Inr (PInt 0)
   \<and> reconciled [[(''blocked'', PInt 0)]] [] None 0 ''Blocked'' = Some (PBool False)"
proof -
  let ?R = "[[(''blocked'', PInt 0)]] :: row list"
  have h: "(0::nat) < length ?R" by simp
  have r: "resolved_value (?R ! 0) [] None ''Blocked'' = Inr (PInt 0)" by code_simp
  show ?thesis
    using blocked_coercion [OF h, of "[]" None] r by auto
qed

theorem blocked_counterexample:
  "reconciled [[(''Blocked'', PStr ''yes'')]] [] None 0 ''Blocked'' = Some (PStr ''yes'')"
  by code_simp



text \<open>
  Claim C9. For the single source row \<open>{"Item": "A1", "Vendor": "Acme"}\<close>, no
  supplemental table and the global defaults \<open>{"Unit Cost": "12.50"}\<close>, reconciliation
  returns exactly one canonical row, with \<open>ITEM = "A1"\<close>, \<open>Vendor = "Acme"\<close>,
  \<open>Unit Cost = "12.50"\<close>, \<open>Blocked = False\<close> and the empty string in each of the other
  38 columns.
\<close>

theorem reconcile_example:
  "build_analysis_rows [[(''Item'', PStr ''A1''), (''Vendor'', PStr ''Acme'')]]
       [(''Unit Cost'', PStr ''12.50'')] None
   = Inr [[(''ITEM'', PStr ''A1''), (''Listing SKU'', PStr []), (''Blocked'', PBool False),
           (''Blocked Notes'', PStr []), (''Brand'', PStr []), (''Product Type'', PStr []),
           (''Deposco Category'', PStr []), (''Amazon Title'', PStr []), (''eBay Title'', PStr []),
           (''Amazon Trademark Brand List'', PStr []), (''Amazon Category'', PStr []),
           (''Store Category'', PStr []), (''Store Featured Category'', PStr []),
           (''Keywords'', PStr []), (''Amazon Description'', PStr []), (''Applications'', PStr []),
           (''Replaces'', PStr []), (''Fitment'', PStr []), (''Store Fitment'', PStr []),
           (''Division Listing Type'', PStr []), (''Length'', PStr []), (''Width'', PStr []),
           (''Height'', PStr []), (''Weight'', PStr []), (''Images'', PStr []),
           (''Unit Cost'', PStr ''12.50''), (''BIN'', PStr []), (''Vendor'', PStr ''Acme''),
           (''Source'', PStr []), (''Partslink Numbers'', PStr []),
           (''Manufacturer Part Number'', PStr []), (''Interchange Part Number'', PStr []),
           (''Other Part Number'', PStr []), (''OEM Interchange Part Number 1'', PStr []),
           (''OEM Interchange Part Number 2'', PStr []), (''OEM Interchange Part Number 3'', PStr []),
           (''OEM Interchange Part Number 4'', PStr []), (''OEM Interchange Part Number 5'', PStr []),
           (''OEM Interchange Part Number 6'', PStr []), (''OEM Interchange Part Number 7'', PStr []),
           (''OEM Interchange Part Number 8'', PStr []), (''OEM Interchange Part Number 9'', PStr [])]]"
  by code_simp




section \<open>Claims about the field analyzer\<close>



section \<open>Claims about the derived sheets and the workbook\<close>

text \<open>
  Claim C5, amended. For every canonical row sequence, the identities of the vendor sheet,
  of the item master sheet and of the pack sheet are the same list: the truthy item
  identities of the canonical rows (not \<open>None\<close>, not the empty string, not \<open>0\<close>, not
  \<open>False\<close>), each once, in the order of first occurrence, where two identities are the
  same when \<open>==\<close> says so. No identity appears twice, every identity listed is a truthy
  identity of some canonical row, and every truthy identity of a canonical row is listed.

  The claim as stated, with every non-empty identity kept, fails on the source row
  \<open>{"ITEM": 0}\<close>: its canonical identity \<open>0\<close> is not absent and its text \<open>"0"\<close> is not
  empty, and none of the three sheets has a row for it.
\<close>

theorem derived_sheets_first_occurrences:
  "map (\<lambda>s. get s ''Item'') (build_item_vendor_sheet rows)
      = first_occurrences (filter truthy (item_identities rows))
   \<and> map (\<lambda>s. get s ''Number'') (build_item_sheet rows hc oc)
      = first_occurrences (filter truthy (item_identities rows))
   \<and> map (\<lambda>s. get s ''Item'') (build_pack_sheet rows)
      = first_occurrences (filter truthy (item_identities rows))
   \<and> py_distinct (first_occurrences (filter truthy (item_identities rows)))
   \<and> (\<forall>v\<in>set (first_occurrences (filter truthy (item_identities rows))).
         truthy v \<and> v \<in> set (item_identities rows))
   \<and> (\<forall>v\<in>set (item_identities rows).
         truthy v \<longrightarrow> py_in v (first_occurrences (filter truthy (item_identities rows))))"
proof -
  let ?ids = "first_occurrences (filter truthy (item_identities rows))"
  have a: "map (\<lambda>s. get s ''Item'') (build_item_vendor_sheet rows) = ?ids"
    unfolding build_item_vendor_sheet_def by (rule dedup_loop_start) (rule vendor_record_id)
  have b: "map (\<lambda>s. get s ''Number'') (build_item_sheet rows hc oc) = ?ids"
    unfolding build_item_sheet_def by (rule dedup_loop_start) (rule item_record_id)
  have c: "map (\<lambda>s. get s ''Item'') (build_pack_sheet rows) = ?ids"
    unfolding build_pack_sheet_def by (rule dedup_loop_start) (rule pack_record_id)
  have d: "py_distinct ?ids" by (rule py_distinct_first_occurrences)
  have e: "\<forall>v\<in>set ?ids. truthy v \<and> v \<in> set (item_identities rows)"
    using set_first_occurrences [of "filter truthy (item_identities rows)"] by auto
  have f: "\<forall>v\<in>set (item_identities rows). truthy v \<longrightarrow> py_in v ?ids"
    by (simp add: first_occurrences_covers)
  show ?thesis using a b c d e f by blast
qed

theorem derived_sheets_first_occurrences_witness:
  "map (\<lambda>s. get s ''Item'')
       (build_item_vendor_sheet [[(''ITEM'', PStr ''A1'')], [(''ITEM'', PStr [])],
                                 [(''ITEM'', PStr ''B2'')], [(''ITEM'', PStr ''A1'')]])
     = [PStr ''A1'', PStr ''B2'']
   \<and> map (\<lambda>s. get s ''Item'')
       (build_pack_sheet [[(''ITEM'', PStr ''A1'')], [(''ITEM'', PStr [])],
                          [(''ITEM'', PStr ''B2'')], [(''ITEM'', PStr ''A1'')]])
     = [PStr ''A1'', PStr ''B2'']
   \<and> py_in (PStr ''B2'') [PStr ''A1'', PStr ''B2'']"
proof -
  let ?rows = "[[(''ITEM'', PStr ''A1'')], [(''ITEM'', PStr [])],
                [(''ITEM'', PStr ''B2'')], [(''ITEM'', PStr ''A1'')]] :: row list"
  have ids: "first_occurrences (filter truthy (item_identities ?rows)) = [PStr ''A1'', PStr ''B2'']"
    by (simp add: item_identities_def get_def dict_get_def py_eq_def)
  have mem: "PStr ''B2'' \<in> set (item_identities ?rows)"
    by (simp add: item_identities_def get_def dict_get_def)
  show ?thesis
    using derived_sheets_first_occurrences [of ?rows PNone PNone] ids mem by auto
qed

theorem derived_sheets_counterexample:
  "canonical_rows [[(''ITEM'', PInt 0)]] [] None = [zero_item_row]
   \<and> get zero_item_row ''ITEM'' = PInt 0
   \<and> non_empty (PInt 0)
   \<and> build_item_vendor_sheet [zero_item_row] = []
   \<and> build_item_sheet [zero_item_row] (PStr []) (PStr []) = []
   \<and> build_pack_sheet [zero_item_row] = []"
proof -
  have g: "get zero_item_row ''ITEM'' = PInt 0"
    by (simp add: zero_item_row_def ANALYSIS_COLUMNS_def get_def dict_get_def)
  have c: "canonical_rows [[(''ITEM'', PInt 0)]] [] None = [zero_item_row]"
    by code_simp
  have n: "non_empty (PInt 0)"
    by code_simp
  show ?thesis
    using g c n
    by (simp add: build_item_vendor_sheet_def build_item_sheet_def build_pack_sheet_def)
qed

text \<open>
  Claim C6. For every canonical row sequence, the UPC sheet has exactly one entry per
  canonical row, in row order, whatever the row's identity: the entry holds the row's
  \<open>ITEM\<close> (the empty string when the key is absent), its \<open>Listing SKU\<close> as \<open>UPC\<close> (the
  empty string when absent) and the source label \<open>"Listings"\<close>.
\<close>

theorem upc_sheet_one_entry_per_row:
  "length (build_item_upc_sheet rows) = length rows
   \<and> (\<forall>i<length rows.
         build_item_upc_sheet rows ! i
           = [(''ITEM'', get_or (rows ! i) ''ITEM'' (PStr [])),
              (''UPC'', get_or (rows ! i) ''Listing SKU'' (PStr [])),
              (''Source'', PStr ''Listings'')])"
  by (simp add: build_item_upc_sheet_def upc_record_def)

theorem upc_sheet_one_entry_per_row_witness:
  "length (build_item_upc_sheet [[(''ITEM'', PStr ''A1''), (''Listing SKU'', PStr ''S1'')],
                                 [(''Listing SKU'', PStr ''S2'')]]) = 2
   \<and> build_item_upc_sheet [[(''ITEM'', PStr ''A1''), (''Listing SKU'', PStr ''S1'')],
                            [(''Listing SKU'', PStr ''S2'')]] ! 1
       = [(''ITEM'', PStr []), (''UPC'', PStr ''S2''), (''Source'', PStr ''Listings'')]"
proof -
  let ?rows = "[[(''ITEM'', PStr ''A1''), (''Listing SKU'', PStr ''S1'')],
                [(''Listing SKU'', PStr ''S2'')]] :: row list"
  have g: "get_or (?rows ! 1) ''ITEM'' (PStr []) = PStr []"
    "get_or (?rows ! 1) ''Listing SKU'' (PStr []) = PStr ''S2''"
    by (simp_all add: get_or_def dict_get_def)
  have "(1::nat) < length ?rows" by simp
  then have "build_item_upc_sheet ?rows ! 1
       = [(''ITEM'', get_or (?rows ! 1) ''ITEM'' (PStr [])),
          (''UPC'', get_or (?rows ! 1) ''Listing SKU'' (PStr [])),
          (''Source'', PStr ''Listings'')]"
    using upc_sheet_one_entry_per_row [of ?rows] by blast
  moreover have "length (build_item_upc_sheet ?rows) = 2"
    using upc_sheet_one_entry_per_row [of ?rows] by simp
  ultimately show ?thesis using g by simp
qed




end
